theory Spec2Isabelle
  imports Main
begin

section \<open>Python values and errors\<close>

text \<open>
  The exceptions that \<^verbatim>\<open>get_current_name.py\<close> can raise. None of them is
  caught anywhere in the script, so each one aborts the run.
\<close>

datatype py_error =
    AttributeError
  | KeyError
  | TypeError
  | ValueError
  | JSONDecodeError
  | RequestException

text \<open>
  A decoded JSON document, as \<^verbatim>\<open>response.json()\<close> returns it: \<^verbatim>\<open>None\<close>,
  \<^verbatim>\<open>bool\<close>, \<^verbatim>\<open>int\<close>, \<^verbatim>\<open>str\<close>, \<^verbatim>\<open>list\<close> and \<^verbatim>\<open>dict\<close>
  (an association list read with \<open>map_of\<close>). Numbers with a fractional part are
  outside the model, and an object holds each key once, as a Python \<^verbatim>\<open>dict\<close>
  does. Strings are lists of 8-bit characters, so the string functions below are those
  of Python on ASCII text.
\<close>

datatype json =
    JNull
  | JBool bool
  | JInt int
  | JStr string
  | JArr "json list"
  | JObj "(string \<times> json) list"

subsection \<open>\<^verbatim>\<open>str.strip()\<close>, \<^verbatim>\<open>str.lower()\<close>, \<^verbatim>\<open>a in b\<close>, \<^verbatim>\<open>sep.join\<close>\<close>

text \<open>
  The whitespace that \<^verbatim>\<open>strip\<close> removes and the letters that \<^verbatim>\<open>lower\<close> changes
  are those of ASCII: code points 9 to 13 and 28 to 32, and \<open>A\<close> to \<open>Z\<close>. Python also
  strips the Unicode spaces (such as U+0085 and U+00A0) and lowers every cased letter,
  so on text beyond ASCII the two functions below are not Python's. The properties
  proved later use them only through their definitions here.
\<close>

definition is_space :: "char \<Rightarrow> bool" where
  "is_space c = (let n = (of_char c :: nat) in (9 \<le> n \<and> n \<le> 13) \<or> (28 \<le> n \<and> n \<le> 32))"

definition strip :: "string \<Rightarrow> string" where
  "strip s = rev (dropWhile is_space (rev (dropWhile is_space s)))"

definition lower_char :: "char \<Rightarrow> char" where
  "lower_char c = (let n = (of_char c :: nat) in if 65 \<le> n \<and> n \<le> 90 then char_of (n + 32) else c)"

definition lower :: "string \<Rightarrow> string" where
  "lower s = map lower_char s"

fun startswith :: "string \<Rightarrow> string \<Rightarrow> bool" where
  "startswith s [] = True"
| "startswith [] (p # ps) = False"
| "startswith (c # cs) (p # ps) = (c = p \<and> startswith cs ps)"

text \<open>\<open>contains sub s\<close> is Python's \<^verbatim>\<open>sub in s\<close> on strings.\<close>

fun contains :: "string \<Rightarrow> string \<Rightarrow> bool" where
  "contains sub [] = (sub = [])"
| "contains sub (c # cs) = (startswith (c # cs) sub \<or> contains sub cs)"

fun join :: "string \<Rightarrow> string list \<Rightarrow> string" where
  "join sep [] = []"
| "join sep [x] = x"
| "join sep (x # y # ys) = x @ sep @ join sep (y # ys)"

section \<open>Input loader and filter: \<^verbatim>\<open>read_species_list\<close>\<close>

datatype reason = user_excluded | ambiguous

definition excluded_characters :: "string list" where
  "excluded_characters = [''['', '']'', ''sp.'', ''cf.'', ''aff.'']"

text \<open>The \<^verbatim>\<open>if / elif / else\<close> that gives a stripped, non-blank line its reason.\<close>

definition line_reason :: "string list \<Rightarrow> string \<Rightarrow> reason option" where
  "line_reason excluded_species sp =
     (if sp \<in> set excluded_species then Some user_excluded
      else if list_ex (\<lambda>ch. contains ch sp) excluded_characters then Some ambiguous
      else None)"

record loader_state =
  species_to_check :: "string list"
  excluded_rows :: "(string \<times> reason) list"
  excluded_user_count :: nat
  excluded_ambig_count :: nat

definition loader_init :: loader_state where
  "loader_init = \<lparr>species_to_check = [], excluded_rows = [],
                   excluded_user_count = 0, excluded_ambig_count = 0\<rparr>"

text \<open>One iteration of \<^verbatim>\<open>for line in f\<close>.\<close>

definition read_line :: "string list \<Rightarrow> loader_state \<Rightarrow> string \<Rightarrow> loader_state" where
  "read_line excluded_species st line =
     (let sp = strip line in
      if sp = [] then st
      else (case line_reason excluded_species sp of
              Some user_excluded \<Rightarrow>
                st\<lparr>excluded_user_count := excluded_user_count st + 1,
                   excluded_rows := excluded_rows st @ [(sp, user_excluded)]\<rparr>
            | Some ambiguous \<Rightarrow>
                st\<lparr>excluded_ambig_count := excluded_ambig_count st + 1,
                   excluded_rows := excluded_rows st @ [(sp, ambiguous)]\<rparr>
            | None \<Rightarrow> st\<lparr>species_to_check := species_to_check st @ [sp]\<rparr>))"

fun read_lines :: "string list \<Rightarrow> loader_state \<Rightarrow> string list \<Rightarrow> loader_state" where
  "read_lines excluded_species st [] = st"
| "read_lines excluded_species st (line # rest) =
     read_lines excluded_species (read_line excluded_species st line) rest"

text \<open>
  \<^verbatim>\<open>read_species_list\<close> on the lines of the input file. The result is the returned
  triple together with the rows of the exclusion side file, which is written only when
  at least one line was excluded (\<open>None\<close>: no file is written).
\<close>

definition read_species_list ::
  "string list \<Rightarrow> string list \<Rightarrow> (string list \<times> nat \<times> nat) \<times> (string \<times> reason) list option" where
  "read_species_list file_lines excluded_species =
     (let st = read_lines excluded_species loader_init file_lines in
      ((species_to_check st, excluded_user_count st, excluded_ambig_count st),
       (if excluded_rows st = [] then None else Some (excluded_rows st))))"

definition query_list :: "string list \<Rightarrow> string list \<Rightarrow> string list" where
  "query_list file_lines excluded_species = fst (fst (read_species_list file_lines excluded_species))"

text \<open>The stripped non-blank lines of the file, as \<^verbatim>\<open>main\<close> counts them.\<close>

definition non_blank :: "string list \<Rightarrow> string list" where
  "non_blank file_lines = filter (\<lambda>sp. sp \<noteq> []) (map strip file_lines)"

section \<open>Batcher: \<^verbatim>\<open>batch\<close>\<close>

text \<open>
  The generator's loop: \<^verbatim>\<open>chunk = list(islice(it, n))\<close>, stop at the first empty
  chunk. With \<open>n = 0\<close> the first chunk is already empty.
\<close>

function chunks :: "nat \<Rightarrow> 'a list \<Rightarrow> 'a list list" where
  "chunks n xs = (let chunk = take n xs in if chunk = [] then [] else chunk # chunks n (drop n xs))"
  by pat_completeness auto
termination
  by (relation "measure (\<lambda>(n, xs). length xs)") auto

declare chunks.simps [simp del]

text \<open>\<^verbatim>\<open>sys.maxsize\<close> of 64-bit CPython, the largest stop value \<^verbatim>\<open>islice\<close> accepts.\<close>

definition sys_maxsize :: int where
  "sys_maxsize = 2 ^ 63 - 1"

text \<open>
  \<^verbatim>\<open>batch(iterable, n)\<close>, all batches collected. \<^verbatim>\<open>islice\<close> raises
  \<^verbatim>\<open>ValueError\<close> for a stop value that is negative or above \<^verbatim>\<open>sys.maxsize\<close>;
  that happens when the first batch is asked for, whatever the list holds.
\<close>

definition batch :: "'a list \<Rightarrow> int \<Rightarrow> py_error + 'a list list" where
  "batch iterable n =
     (if n < 0 \<or> sys_maxsize < n then Inl ValueError else Inr (chunks (nat n) iterable))"


section \<open>Python operations on decoded JSON\<close>

text \<open>Sequencing of steps that may raise: the first exception ends the computation.\<close>

definition ebind :: "py_error + 'a \<Rightarrow> ('a \<Rightarrow> py_error + 'b) \<Rightarrow> py_error + 'b" where
  "ebind m f = (case m of Inl e \<Rightarrow> Inl e | Inr x \<Rightarrow> f x)"

text \<open>Truth value of a Python object (\<^verbatim>\<open>not current_id\<close>).\<close>

fun py_truthy :: "json \<Rightarrow> bool" where
  "py_truthy JNull = False"
| "py_truthy (JBool b) = b"
| "py_truthy (JInt i) = (i \<noteq> 0)"
| "py_truthy (JStr s) = (s \<noteq> [])"
| "py_truthy (JArr xs) = (xs \<noteq> [])"
| "py_truthy (JObj kvs) = (kvs \<noteq> [])"

text \<open>
  Python's \<^verbatim>\<open>==\<close> on decoded JSON. \<^verbatim>\<open>bool\<close> is a subclass of \<^verbatim>\<open>int\<close>, so
  \<^verbatim>\<open>True == 1\<close>; two dicts are equal when they have the same number of keys and
  every key of the first is in the second with an equal value.
\<close>

fun py_eq :: "json \<Rightarrow> json \<Rightarrow> bool"
  and py_eq_list :: "json list \<Rightarrow> json list \<Rightarrow> bool"
  and py_eq_items :: "(string \<times> json) list \<Rightarrow> (string \<times> json) list \<Rightarrow> bool" where
  "py_eq JNull y = (y = JNull)"
| "py_eq (JBool a) y =
     (case y of JBool b \<Rightarrow> a = b | JInt j \<Rightarrow> (if a then 1 else 0) = j | _ \<Rightarrow> False)"
| "py_eq (JInt i) y =
     (case y of JInt j \<Rightarrow> i = j | JBool b \<Rightarrow> i = (if b then 1 else 0) | _ \<Rightarrow> False)"
| "py_eq (JStr s) y = (y = JStr s)"
| "py_eq (JArr xs) y = (case y of JArr ys \<Rightarrow> py_eq_list xs ys | _ \<Rightarrow> False)"
| "py_eq (JObj a) y =
     (case y of JObj b \<Rightarrow> length a = length b \<and> py_eq_items a b | _ \<Rightarrow> False)"
| "py_eq_list [] ys = (ys = [])"
| "py_eq_list (x # xs) ys = (case ys of [] \<Rightarrow> False | y # ys' \<Rightarrow> py_eq x y \<and> py_eq_list xs ys')"
| "py_eq_items [] b = True"
| "py_eq_items ((k, v) # a) b =
     ((case map_of b k of None \<Rightarrow> False | Some w \<Rightarrow> py_eq v w) \<and> py_eq_items a b)"

text \<open>\<^verbatim>\<open>obj.get(key, default)\<close>: only a dict has the method.\<close>

fun py_get :: "json \<Rightarrow> string \<Rightarrow> json \<Rightarrow> py_error + json" where
  "py_get (JObj kvs) key dflt = Inr (case map_of kvs key of None \<Rightarrow> dflt | Some v \<Rightarrow> v)"
| "py_get _ key dflt = Inl AttributeError"

text \<open>\<^verbatim>\<open>obj[key]\<close> with a string key.\<close>

fun py_getitem :: "json \<Rightarrow> string \<Rightarrow> py_error + json" where
  "py_getitem (JObj kvs) key = (case map_of kvs key of None \<Rightarrow> Inl KeyError | Some v \<Rightarrow> Inr v)"
| "py_getitem _ key = Inl TypeError"

text \<open>\<^verbatim>\<open>obj.strip()\<close> and \<^verbatim>\<open>obj.lower()\<close>: only a string has the methods.\<close>

fun py_strip :: "json \<Rightarrow> py_error + string" where
  "py_strip (JStr s) = Inr (strip s)"
| "py_strip _ = Inl AttributeError"

fun py_lower :: "json \<Rightarrow> py_error + string" where
  "py_lower (JStr s) = Inr (lower s)"
| "py_lower _ = Inl AttributeError"

text \<open>
  \<^verbatim>\<open>for item in obj\<close>: a list gives its elements, a string its characters, a dict
  its keys; nothing else can be iterated.
\<close>

fun py_iter :: "json \<Rightarrow> py_error + json list" where
  "py_iter (JArr xs) = Inr xs"
| "py_iter (JStr s) = Inr (map (\<lambda>c. JStr [c]) s)"
| "py_iter (JObj kvs) = Inr (map (\<lambda>kv. JStr (fst kv)) kvs)"
| "py_iter _ = Inl TypeError"

section \<open>The authority\<close>

text \<open>
  The two calls of \<^verbatim>\<open>requests.get\<close>: the batch query, determined by its filter
  string, and the point lookup, whose URL is the base URL followed by the text of the
  current-name identifier and so is determined by that identifier. A call either raises
  or returns a response with a status code and a body; \<open>body = None\<close> is a body that
  is not JSON, on which \<^verbatim>\<open>.json()\<close> raises.
\<close>

datatype request = BatchQuery string | PointLookup json

record response =
  status_code :: int
  body :: "json option"

type_synonym authority = "request \<Rightarrow> py_error + response"

definition response_json :: "response \<Rightarrow> py_error + json" where
  "response_json r = (case body r of None \<Rightarrow> Inl JSONDecodeError | Some d \<Rightarrow> Inr d)"

section \<open>Query builder and resolution classifier: \<^verbatim>\<open>get_current_names_batch\<close>\<close>

datatype status =
    current
  | not_current
  | no_records
  | no_valid
  | no_current
  | multiple_records
  | error

definition NA :: json where
  "NA = JStr ''NA''"

definition unknown :: json where
  "unknown = JStr ''<unknown>''"

definition filter_str :: "string list \<Rightarrow> string" where
  "filter_str species_batch =
     join '' or '' (map (\<lambda>sp. ''name startWith '' @ [CHR 0x27] @ sp @ [CHR 0x27]) species_batch)"

text \<open>\<^verbatim>\<open>item.get("nameStatus") not in ["Illegitimate", "Invalid"]\<close>, negated.\<close>

definition excluded_status :: "json \<Rightarrow> bool" where
  "excluded_status v = (py_eq v (JStr ''Illegitimate'') \<or> py_eq v (JStr ''Invalid''))"

text \<open>
  The condition of the list comprehension that builds \<^verbatim>\<open>species_items\<close>; the
  right operand of \<^verbatim>\<open>and\<close> is evaluated only when the names agree.
\<close>

definition item_matches :: "string \<Rightarrow> json \<Rightarrow> py_error + bool" where
  "item_matches species item =
     ebind (py_get item ''name'' (JStr [])) (\<lambda>nm.
     ebind (py_strip nm) (\<lambda>s.
       if lower s = lower (strip species)
       then ebind (py_get item ''nameStatus'' JNull) (\<lambda>ns. Inr (\<not> excluded_status ns))
       else Inr False))"

fun filter_items :: "string \<Rightarrow> json list \<Rightarrow> py_error + json list" where
  "filter_items species [] = Inr []"
| "filter_items species (item # items) =
     ebind (item_matches species item) (\<lambda>m.
     ebind (filter_items species items) (\<lambda>rest.
       Inr (if m then item # rest else rest)))"

text \<open>
  \<^verbatim>\<open>sp.lower() in (item.get("name", "").lower() for item in items)\<close>: the generator
  is consumed up to the first equal element.
\<close>

fun name_in_items :: "string \<Rightarrow> json list \<Rightarrow> py_error + bool" where
  "name_in_items sp [] = Inr False"
| "name_in_items sp (item # items) =
     ebind (py_get item ''name'' (JStr [])) (\<lambda>nm.
     ebind (py_lower nm) (\<lambda>s.
       if lower sp = s then Inr True else name_in_items sp items))"

text \<open>\<^verbatim>\<open>item.get("synonymy", {}).get("currentNameId")\<close>.\<close>

definition current_name_id :: "json \<Rightarrow> py_error + json" where
  "current_name_id item =
     ebind (py_get item ''synonymy'' (JObj [])) (\<lambda>syn. py_get syn ''currentNameId'' JNull)"

fun collect_ids :: "json list \<Rightarrow> py_error + json list" where
  "collect_ids [] = Inr []"
| "collect_ids (item # items) =
     ebind (current_name_id item) (\<lambda>cid.
     ebind (collect_ids items) (\<lambda>rest. Inr (cid # rest)))"

text \<open>
  Possibilities 4 to 6, for the canonical record \<open>item\<close>: the outcome is the status,
  the value of the \<^verbatim>\<open>current_name\<close> column and the requests sent on the way.
\<close>

definition classify_item :: "authority \<Rightarrow> json \<Rightarrow> py_error + (status \<times> json \<times> request list)" where
  "classify_item auth item =
     ebind (py_getitem item ''id'') (\<lambda>item_id.
     ebind (current_name_id item) (\<lambda>current_id.
       if \<not> py_truthy current_id then Inr (no_current, NA, [])
       else if py_eq item_id current_id
       then ebind (py_getitem item ''name'') (\<lambda>current_name. Inr (current, current_name, []))
       else
         ebind (auth (PointLookup current_id)) (\<lambda>response_current.
         ebind (response_json response_current) (\<lambda>data_current.
         ebind (py_get data_current ''name'' unknown) (\<lambda>current_name.
         ebind (py_get data_current ''mycobankNr'' unknown) (\<lambda>mycobank_number.
           Inr (not_current, current_name, [PointLookup current_id])))))))"

text \<open>Possibility 3: do the records of \<^verbatim>\<open>species_items\<close> share one current-name identifier?\<close>

definition ids_agree :: "json list \<Rightarrow> bool" where
  "ids_agree current_ids = list_all (\<lambda>cid. py_eq cid (hd current_ids)) current_ids"

text \<open>
  The body of \<^verbatim>\<open>for species in species_batch\<close>, from the value of
  \<^verbatim>\<open>data.get("items", [])\<close>.
\<close>

definition classify :: "authority \<Rightarrow> json \<Rightarrow> string \<Rightarrow> py_error + (status \<times> json \<times> request list)" where
  "classify auth items_json species =
     ebind (py_iter items_json) (\<lambda>items.
     ebind (filter_items species items) (\<lambda>species_items.
       case species_items of
         [] \<Rightarrow>
           ebind (name_in_items species items) (\<lambda>found.
             Inr (if found then no_valid else no_records, NA, []))
       | [item] \<Rightarrow> classify_item auth item
       | item # _ # _ \<Rightarrow>
           ebind (collect_ids species_items) (\<lambda>current_ids.
             if ids_agree current_ids then classify_item auth item
             else Inr (multiple_records, NA, []))))"

record run_state =
  results :: "(string \<times> status \<times> json) list"
  summary :: "status \<Rightarrow> nat"
  processed_count :: nat
  calls :: "request list"

definition init_state :: run_state where
  "init_state = \<lparr>results = [], summary = (\<lambda>_. 0), processed_count = 0, calls = []\<rparr>"

text \<open>
  What every branch does with its outcome: \<^verbatim>\<open>results.append\<close>,
  \<^verbatim>\<open>summary[status] += 1\<close>, \<^verbatim>\<open>processed_count += 1\<close>.
\<close>

definition record_result :: "string \<Rightarrow> status \<Rightarrow> json \<Rightarrow> run_state \<Rightarrow> run_state" where
  "record_result sp st nm s =
     s\<lparr>results := results s @ [(sp, st, nm)],
       summary := (summary s)(st := summary s st + 1),
       processed_count := processed_count s + 1\<rparr>"

definition sent :: "request list \<Rightarrow> run_state \<Rightarrow> run_state" where
  "sent rs s = s\<lparr>calls := calls s @ rs\<rparr>"

definition process_species :: "authority \<Rightarrow> json \<Rightarrow> run_state \<Rightarrow> string \<Rightarrow> py_error + run_state" where
  "process_species auth items_json s species =
     ebind (classify auth items_json species) (\<lambda>(st, nm, rs).
       Inr (record_result species st nm (sent rs s)))"

fun process_names :: "authority \<Rightarrow> json \<Rightarrow> run_state \<Rightarrow> string list \<Rightarrow> py_error + run_state" where
  "process_names auth items_json s [] = Inr s"
| "process_names auth items_json s (species # rest) =
     ebind (process_species auth items_json s species) (\<lambda>s'.
       process_names auth items_json s' rest)"

text \<open>Possibility 1: every name of the batch is marked \<open>error\<close>.\<close>

fun mark_errors :: "run_state \<Rightarrow> string list \<Rightarrow> run_state" where
  "mark_errors s [] = s"
| "mark_errors s (sp # rest) = mark_errors (record_result sp error NA s) rest"

text \<open>One iteration of \<^verbatim>\<open>for species_batch in batch(species_list, batch_size)\<close>.\<close>

definition process_batch :: "authority \<Rightarrow> run_state \<Rightarrow> string list \<Rightarrow> py_error + run_state" where
  "process_batch auth s species_batch =
     (let q = BatchQuery (filter_str species_batch) in
      ebind (auth q) (\<lambda>resp.
        if status_code resp \<noteq> 200 then Inr (mark_errors (sent [q] s) species_batch)
        else
          ebind (response_json resp) (\<lambda>data.
          ebind (py_get data ''items'' (JArr [])) (\<lambda>items_json.
            process_names auth items_json (sent [q] s) species_batch))))"

fun run_batches :: "authority \<Rightarrow> run_state \<Rightarrow> string list list \<Rightarrow> py_error + run_state" where
  "run_batches auth s [] = Inr s"
| "run_batches auth s (species_batch # rest) =
     ebind (process_batch auth s species_batch) (\<lambda>s'. run_batches auth s' rest)"

text \<open>
  \<^verbatim>\<open>get_current_names_batch\<close>. The rows of the final state's \<open>results\<close> are the
  rows written to the report after the header; an exception leaves no report at all,
  since the file is written only after the loop.
\<close>

definition get_current_names_batch :: "authority \<Rightarrow> string list \<Rightarrow> int \<Rightarrow> py_error + run_state" where
  "get_current_names_batch auth species_list batch_size =
     ebind (batch species_list batch_size) (\<lambda>batches. run_batches auth init_state batches)"


section \<open>Reference notions for comparing runs\<close>

text \<open>
  The name that the classifier reads from a record, \<^verbatim>\<open>item.get("name", "")\<close>, when
  the record is a dict and that value is a string; \<open>None\<close> for a record on which the
  classifier raises.
\<close>

fun item_name :: "json \<Rightarrow> string option" where
  "item_name (JObj kvs) =
     (case map_of kvs ''name'' of None \<Rightarrow> Some [] | Some (JStr n) \<Rightarrow> Some n | Some _ \<Rightarrow> None)"
| "item_name _ = None"

text \<open>The status a dict record carries, \<^verbatim>\<open>item.get("nameStatus")\<close>.\<close>

fun item_status :: "json \<Rightarrow> json" where
  "item_status (JObj kvs) = (case map_of kvs ''nameStatus'' of None \<Rightarrow> JNull | Some v \<Rightarrow> v)"
| "item_status _ = JNull"

text \<open>A record bears a name when the two agree after stripping and lower-casing.\<close>

definition bears_name :: "string \<Rightarrow> json \<Rightarrow> bool" where
  "bears_name species item =
     (case item_name item of None \<Rightarrow> False | Some n \<Rightarrow> lower (strip n) = lower (strip species))"




definition same_report :: "run_state \<Rightarrow> run_state \<Rightarrow> bool" where
  "same_report s t =
     (results s = results t \<and> summary s = summary t \<and> processed_count s = processed_count t)"

section \<open>Example records and authorities\<close>

text \<open>A record of the authority with the fields the classifier reads.\<close>

definition name_record :: "int \<Rightarrow> string \<Rightarrow> string \<Rightarrow> json \<Rightarrow> json" where
  "name_record i n st c =
     JObj [(''id'', JInt i), (''name'', JStr n), (''nameStatus'', JStr st),
           (''synonymy'', JObj [(''currentNameId'', c)])]"

definition items_response :: "json list \<Rightarrow> py_error + response" where
  "items_response items = Inr \<lparr>status_code = 200, body = Some (JObj [(''items'', JArr items)])\<rparr>"

definition not_found :: "py_error + response" where
  "not_found = Inr \<lparr>status_code = 404, body = None\<rparr>"

text \<open>An authority that is never reached: every call raises.\<close>

definition unreachable :: authority where
  "unreachable req = Inl RequestException"

text \<open>An authority that answers every call with status 500 and no JSON.\<close>

definition refusing :: authority where
  "refusing req = Inr \<lparr>status_code = 500, body = None\<rparr>"

text \<open>
  An authority that answers every batch query with the same records, and every point
  lookup with status 404 and a body that is not JSON.
\<close>

definition serving :: "json list \<Rightarrow> authority" where
  "serving items req = (case req of BatchQuery f \<Rightarrow> items_response items | PointLookup i \<Rightarrow> not_found)"

text \<open>
  The same, but a filter expression of more than 40 characters is refused with
  status 414.
\<close>

definition length_limited :: "json list \<Rightarrow> authority" where
  "length_limited items req =
     (case req of
        BatchQuery f \<Rightarrow>
          if length f \<le> 40 then items_response items
          else Inr \<lparr>status_code = 414, body = None\<rparr>
      | PointLookup i \<Rightarrow> not_found)"

section \<open>Properties of the input loader\<close>

lemma read_line_check:
  "species_to_check (read_line E st l) =
     species_to_check st @ filter (\<lambda>sp. line_reason E sp = None) (non_blank [l])"
  by (simp add: read_line_def non_blank_def Let_def split: option.split reason.split)

lemma read_line_rows:
  "excluded_rows (read_line E st l) =
     excluded_rows st @ concat (map (\<lambda>sp. case line_reason E sp of None \<Rightarrow> [] | Some r \<Rightarrow> [(sp, r)]) (non_blank [l]))"
  by (simp add: read_line_def non_blank_def Let_def split: option.split reason.split)

lemma read_line_user:
  "excluded_user_count (read_line E st l) =
     excluded_user_count st + length (filter (\<lambda>sp. line_reason E sp = Some user_excluded) (non_blank [l]))"
  by (simp add: read_line_def non_blank_def Let_def split: option.split reason.split)

lemma read_line_ambig:
  "excluded_ambig_count (read_line E st l) =
     excluded_ambig_count st + length (filter (\<lambda>sp. line_reason E sp = Some ambiguous) (non_blank [l]))"
  by (simp add: read_line_def non_blank_def Let_def split: option.split reason.split)

lemma non_blank_Cons: "non_blank (l # ls) = non_blank [l] @ non_blank ls"
  by (simp add: non_blank_def)

lemma read_lines_check:
  "species_to_check (read_lines E st ls) =
     species_to_check st @ filter (\<lambda>sp. line_reason E sp = None) (non_blank ls)"
proof (induction ls arbitrary: st)
  case Nil
  show ?case by (simp add: non_blank_def)
next
  case (Cons l ls)
  show ?case
    by (simp add: Cons.IH read_line_check non_blank_Cons [of l ls])
qed

lemma read_lines_rows:
  "excluded_rows (read_lines E st ls) =
     excluded_rows st @ concat (map (\<lambda>sp. case line_reason E sp of None \<Rightarrow> [] | Some r \<Rightarrow> [(sp, r)]) (non_blank ls))"
proof (induction ls arbitrary: st)
  case Nil
  show ?case by (simp add: non_blank_def)
next
  case (Cons l ls)
  show ?case
    by (simp add: Cons.IH read_line_rows non_blank_Cons [of l ls])
qed

lemma read_lines_user:
  "excluded_user_count (read_lines E st ls) =
     excluded_user_count st + length (filter (\<lambda>sp. line_reason E sp = Some user_excluded) (non_blank ls))"
proof (induction ls arbitrary: st)
  case Nil
  show ?case by (simp add: non_blank_def)
next
  case (Cons l ls)
  show ?case
    by (simp add: Cons.IH read_line_user non_blank_Cons [of l ls])
qed

lemma read_lines_ambig:
  "excluded_ambig_count (read_lines E st ls) =
     excluded_ambig_count st + length (filter (\<lambda>sp. line_reason E sp = Some ambiguous) (non_blank ls))"
proof (induction ls arbitrary: st)
  case Nil
  show ?case by (simp add: non_blank_def)
next
  case (Cons l ls)
  show ?case
    by (simp add: Cons.IH read_line_ambig non_blank_Cons [of l ls])
qed

lemma three_way:
  "length (filter (\<lambda>sp. line_reason E sp = None) xs)
   + (length (filter (\<lambda>sp. line_reason E sp = Some user_excluded) xs)
      + length (filter (\<lambda>sp. line_reason E sp = Some ambiguous) xs)) = length xs"
proof (induction xs)
  case Nil show ?case by simp
next
  case (Cons x xs)
  show ?case
  proof (cases "line_reason E x")
    case None with Cons show ?thesis by simp
  next
    case (Some r) with Cons show ?thesis by (cases r) simp_all
  qed
qed

lemma rows_length:
  "length (concat (map (\<lambda>sp. case line_reason E sp of None \<Rightarrow> [] | Some r \<Rightarrow> [(sp, r)]) xs))
   = length (filter (\<lambda>sp. line_reason E sp = Some user_excluded) xs)
      + length (filter (\<lambda>sp. line_reason E sp = Some ambiguous) xs)"
proof (induction xs)
  case Nil show ?case by simp
next
  case (Cons x xs)
  show ?case
  proof (cases "line_reason E x")
    case None with Cons show ?thesis by simp
  next
    case (Some r) with Cons show ?thesis by (cases r) simp_all
  qed
qed

lemma read_species_list_fields:
  assumes "read_species_list file_lines excluded_species = ((q, u, a), side)"
  shows "q = filter (\<lambda>sp. line_reason excluded_species sp = None) (non_blank file_lines)"
    and "u = length (filter (\<lambda>sp. line_reason excluded_species sp = Some user_excluded) (non_blank file_lines))"
    and "a = length (filter (\<lambda>sp. line_reason excluded_species sp = Some ambiguous) (non_blank file_lines))"
    and "length (case side of None \<Rightarrow> [] | Some rows \<Rightarrow> rows) = u + a"
proof -
  let ?st = "read_lines excluded_species loader_init file_lines"
  from assms have q: "q = species_to_check ?st" and u: "u = excluded_user_count ?st"
    and a: "a = excluded_ambig_count ?st"
    and side: "side = (if excluded_rows ?st = [] then None else Some (excluded_rows ?st))"
    by (simp_all add: read_species_list_def Let_def)
  show "q = filter (\<lambda>sp. line_reason excluded_species sp = None) (non_blank file_lines)"
    by (simp add: q read_lines_check loader_init_def)
  show u': "u = length (filter (\<lambda>sp. line_reason excluded_species sp = Some user_excluded) (non_blank file_lines))"
    by (simp add: u read_lines_user loader_init_def)
  show a': "a = length (filter (\<lambda>sp. line_reason excluded_species sp = Some ambiguous) (non_blank file_lines))"
    by (simp add: a read_lines_ambig loader_init_def)
  have "length (case side of None \<Rightarrow> [] | Some rows \<Rightarrow> rows) = length (excluded_rows ?st)"
    by (simp add: side)
  also have "\<dots> = u + a"
    by (simp add: read_lines_rows loader_init_def rows_length u' a')
  finally show "length (case side of None \<Rightarrow> [] | Some rows \<Rightarrow> rows) = u + a" .
qed

lemma reason_user: "(line_reason E sp = Some user_excluded) = (sp \<in> set E)"
  by (simp add: line_reason_def)

lemma reason_ambig:
  "(line_reason E sp = Some ambiguous) =
     (sp \<notin> set E \<and> list_ex (\<lambda>ch. contains ch sp) excluded_characters)"
  by (simp add: line_reason_def)

lemma reason_none:
  "(line_reason E sp = None) =
     (sp \<notin> set E \<and> \<not> list_ex (\<lambda>ch. contains ch sp) excluded_characters)"
  by (simp add: line_reason_def)

text \<open>
  C3, as the code has it. The query list is the file-order subsequence of the stripped
  non-blank lines that are neither on the user's list nor carry an ambiguity marker.
  Nothing removes repeated lines: the list is free of duplicates when the non-blank
  lines of the file are.
\<close>

theorem query_list_file_order:
  "query_list file_lines excluded_species =
     filter (\<lambda>sp. sp \<notin> set excluded_species \<and> \<not> list_ex (\<lambda>ch. contains ch sp) excluded_characters)
       (non_blank file_lines)
   \<and> (distinct (non_blank file_lines) \<longrightarrow> distinct (query_list file_lines excluded_species))"
proof -
  obtain q u a side where r: "read_species_list file_lines excluded_species = ((q, u, a), side)"
    by (metis prod_cases3 surj_pair)
  have "query_list file_lines excluded_species = q"
    by (simp add: query_list_def r)
  with read_species_list_fields(1) [OF r] show ?thesis
    by (simp add: reason_none)
qed

theorem query_list_file_order_witness:
  "distinct (non_blank [''Amanita muscaria'', ''Boletus edulis''])
   \<and> distinct (query_list [''Amanita muscaria'', ''Boletus edulis''] [])"
proof -
  have d: "distinct (non_blank [''Amanita muscaria'', ''Boletus edulis''])"
    by (simp add: non_blank_def strip_def is_space_def)
  with query_list_file_order [of "[''Amanita muscaria'', ''Boletus edulis'']" "[]"]
  show ?thesis by blast
qed

text \<open>
  C3, as the specification states it, fails: a name that the file lists twice is queried
  twice.
\<close>

theorem query_list_keeps_duplicates:
  "\<not> distinct (query_list [''Amanita muscaria'', ''Amanita muscaria''] [])"
  by (simp add: query_list_def read_species_list_def loader_init_def read_line_def
      strip_def is_space_def line_reason_def excluded_characters_def Let_def)

text \<open>
  C4. Every stripped non-blank line gets exactly one disposition: it is counted as
  user-excluded when it is on the user's list (whatever else it contains), as ambiguous
  when it is not on that list and contains a marker, and it enters the query list
  otherwise. So the query list and the excluded rows together are as many as the
  non-blank lines, and the two counters add up to the number of excluded rows.
\<close>

theorem loader_partition:
  assumes "read_species_list file_lines excluded_species = ((q, u, a), side)"
  shows "length q + length (case side of None \<Rightarrow> [] | Some rows \<Rightarrow> rows) = length (non_blank file_lines)
    \<and> length (case side of None \<Rightarrow> [] | Some rows \<Rightarrow> rows) = u + a
    \<and> u = length (filter (\<lambda>sp. sp \<in> set excluded_species) (non_blank file_lines))
    \<and> a = length (filter (\<lambda>sp. sp \<notin> set excluded_species
                                \<and> list_ex (\<lambda>ch. contains ch sp) excluded_characters) (non_blank file_lines))
    \<and> q = filter (\<lambda>sp. sp \<notin> set excluded_species
                       \<and> \<not> list_ex (\<lambda>ch. contains ch sp) excluded_characters) (non_blank file_lines)"
proof -
  note f = read_species_list_fields [OF assms]
  have "length q + (u + a) = length (non_blank file_lines)"
    unfolding f(1) f(2) f(3) by (rule three_way)
  with f(4) have "length q + length (case side of None \<Rightarrow> [] | Some rows \<Rightarrow> rows) = length (non_blank file_lines)"
    by simp
  moreover from f(2) have "u = length (filter (\<lambda>sp. sp \<in> set excluded_species) (non_blank file_lines))"
    by (simp add: reason_user)
  moreover from f(3) have "a = length (filter (\<lambda>sp. sp \<notin> set excluded_species
                                \<and> list_ex (\<lambda>ch. contains ch sp) excluded_characters) (non_blank file_lines))"
    by (simp add: reason_ambig)
  moreover from f(1) have "q = filter (\<lambda>sp. sp \<notin> set excluded_species
                       \<and> \<not> list_ex (\<lambda>ch. contains ch sp) excluded_characters) (non_blank file_lines)"
    by (simp add: reason_none)
  ultimately show ?thesis using f(4) by blast
qed

theorem loader_partition_witness:
  "read_species_list
     [''Amanita muscaria'', ''Amanita sp.'', ''   '', ''Boletus edulis [cf.]'', ''Boletus edulis'']
     [''Boletus edulis'']
   = (([''Amanita muscaria''], 1, 2),
      Some [(''Amanita sp.'', ambiguous), (''Boletus edulis [cf.]'', ambiguous),
            (''Boletus edulis'', user_excluded)])
   \<and> length [''Amanita muscaria'']
       + length [(''Amanita sp.'', ambiguous), (''Boletus edulis [cf.]'', ambiguous),
                 (''Boletus edulis'', user_excluded)]
     = length (non_blank
         [''Amanita muscaria'', ''Amanita sp.'', ''   '', ''Boletus edulis [cf.]'', ''Boletus edulis''])"
proof -
  have h: "read_species_list
     [''Amanita muscaria'', ''Amanita sp.'', ''   '', ''Boletus edulis [cf.]'', ''Boletus edulis'']
     [''Boletus edulis'']
   = (([''Amanita muscaria''], 1, 2),
      Some [(''Amanita sp.'', ambiguous), (''Boletus edulis [cf.]'', ambiguous),
            (''Boletus edulis'', user_excluded)])"
    by (simp add: read_species_list_def loader_init_def read_line_def
        strip_def is_space_def line_reason_def excluded_characters_def)
  from loader_partition [OF h, THEN conjunct1] h show ?thesis by simp
qed

section \<open>Properties of the batcher\<close>

lemma chunks_Nil: "take n xs = [] \<Longrightarrow> chunks n xs = []"
  by (subst chunks.simps) (simp add: Let_def)

lemma chunks_Cons: "take n xs \<noteq> [] \<Longrightarrow> chunks n xs = take n xs # chunks n (drop n xs)"
  by (subst chunks.simps) (simp add: Let_def)

lemma chunks_concat: "0 < n \<Longrightarrow> concat (chunks n xs) = xs"
proof (induction n xs rule: chunks.induct)
  case (1 n xs)
  show ?case
  proof (cases "take n xs = []")
    case True
    with "1.prems" have "xs = []" by simp
    with True show ?thesis by (simp add: chunks_Nil)
  next
    case False
    with 1 have "concat (chunks n (drop n xs)) = drop n xs" by simp
    with False show ?thesis by (simp add: chunks_Cons)
  qed
qed

lemma chunks_sizes: "b \<in> set (chunks n xs) \<Longrightarrow> b \<noteq> [] \<and> length b \<le> n"
proof (induction n xs rule: chunks.induct)
  case (1 n xs)
  show ?case
  proof (cases "take n xs = []")
    case True
    then have "chunks n xs = []" by (rule chunks_Nil)
    with "1.prems" show ?thesis by simp
  next
    case False
    then have "chunks n xs = take n xs # chunks n (drop n xs)" by (rule chunks_Cons)
    with "1.prems" consider "b = take n xs" | "b \<in> set (chunks n (drop n xs))" by auto
    then show ?thesis
    proof cases
      case 1 with False show ?thesis by simp
    next
      case 2 with "1.IH" False show ?thesis by simp
    qed
  qed
qed

lemma chunks_full: "b \<in> set (butlast (chunks n xs)) \<Longrightarrow> length b = n"
proof (induction n xs rule: chunks.induct)
  case (1 n xs)
  show ?case
  proof (cases "take n xs = []")
    case True
    then have "chunks n xs = []" by (rule chunks_Nil)
    with "1.prems" show ?thesis by simp
  next
    case False
    then have eq: "chunks n xs = take n xs # chunks n (drop n xs)" by (rule chunks_Cons)
    show ?thesis
    proof (cases "chunks n (drop n xs) = []")
      case True
      with eq "1.prems" show ?thesis by simp
    next
      case ne: False
      have "drop n xs \<noteq> []"
      proof
        assume "drop n xs = []"
        then have "chunks n (drop n xs) = []" by (simp add: chunks_Nil)
        with ne show False by simp
      qed
      then have len: "length (take n xs) = n" by simp
      from "1.prems" eq ne consider "b = take n xs" | "b \<in> set (butlast (chunks n (drop n xs)))"
        by auto
      then show ?thesis
      proof cases
        case 1 with len show ?thesis by simp
      next
        case 2 with "1.IH" False show ?thesis by simp
      qed
    qed
  qed
qed

text \<open>
  C5, as the code has it. For a batch size of at least 1 (and at most
  \<^verbatim>\<open>sys.maxsize\<close>) the batcher returns, and the batches in their order concatenate
  to the query list; no batch is empty or longer than the batch size, and every batch
  but the last has exactly that size.
\<close>

theorem batch_concat:
  assumes "1 \<le> n" and "n \<le> sys_maxsize"
  shows "\<exists>bs. batch xs n = Inr bs \<and> concat bs = xs
           \<and> (\<forall>b \<in> set bs. b \<noteq> [] \<and> int (length b) \<le> n)
           \<and> (\<forall>b \<in> set (butlast bs). int (length b) = n)"
proof -
  from assms have b: "batch xs n = Inr (chunks (nat n) xs)"
    by (simp add: batch_def)
  from assms have pos: "0 < nat n" by simp
  have "concat (chunks (nat n) xs) = xs"
    using pos by (rule chunks_concat)
  moreover have "\<forall>b \<in> set (chunks (nat n) xs). b \<noteq> [] \<and> int (length b) \<le> n"
    using chunks_sizes [of _ "nat n" xs] assms(1) by fastforce
  moreover have "\<forall>b \<in> set (butlast (chunks (nat n) xs)). int (length b) = n"
    using chunks_full [of _ "nat n" xs] assms(1) by fastforce
  ultimately show ?thesis using b by blast
qed

theorem batch_concat_witness:
  "(1::int) \<le> 2 \<and> 2 \<le> sys_maxsize
   \<and> (\<exists>bs. batch [''a'', ''b'', ''c''] 2 = Inr bs \<and> concat bs = [''a'', ''b'', ''c'']
           \<and> (\<forall>b \<in> set bs. b \<noteq> [] \<and> int (length b) \<le> 2)
           \<and> (\<forall>b \<in> set (butlast bs). int (length b) = 2))"
proof -
  have h1: "(1::int) \<le> 2" by simp
  have h2: "2 \<le> sys_maxsize" by (simp add: sys_maxsize_def)
  from batch_concat [OF h1 h2, of "[''a'', ''b'', ''c'']"] h1 h2 show ?thesis by blast
qed

text \<open>
  C5, as the specification states it, fails for the batch size 0, which the command
  line accepts: the first chunk is empty, the generator stops, and no name is queried.
\<close>

theorem batch_size_zero_drops_all:
  "batch [''Amanita muscaria''] 0 = Inr [] \<and> concat ([] :: string list list) \<noteq> [''Amanita muscaria'']"
  by (simp add: batch_def sys_maxsize_def chunks.simps)

section \<open>Properties of the classifier\<close>

lemma ebind_Inl [simp]: "ebind (Inl e) f = Inl e"
  by (simp add: ebind_def)

lemma ebind_Inr [simp]: "ebind (Inr x) f = f x"
  by (simp add: ebind_def)

lemma ebind_Inr_id [simp]: "ebind m Inr = m"
  by (cases m) simp_all

lemma ebind_eq_Inr: "(ebind m f = Inr y) = (\<exists>x. m = Inr x \<and> f x = Inr y)"
  by (cases m) simp_all

lemma sent_Nil [simp]: "sent [] s = s"
  by (simp add: sent_def)

lemmas eval_defs = classify_def item_matches_def strip_def is_space_def lower_def lower_char_def
  excluded_status_def classify_item_def current_name_id_def ids_agree_def response_json_def
  char_of_def bit_Suc_0_iff name_record_def items_response_def not_found_def unreachable_def
  refusing_def serving_def length_limited_def

lemma py_falsy_iff:
  "(\<not> py_truthy v) = (v \<in> {JNull, JBool False, JInt 0, JStr [], JArr [], JObj []})"
  by (cases v) auto

lemma item_matches_TrueD:
  assumes "item_matches species item = Inr True"
  shows "\<exists>kvs n. item = JObj kvs
           \<and> py_get item ''name'' (JStr []) = Inr (JStr n)
           \<and> lower (strip n) = lower (strip species)
           \<and> \<not> excluded_status (case map_of kvs ''nameStatus'' of None \<Rightarrow> JNull | Some v \<Rightarrow> v)"
proof (cases item)
  case (JObj kvs)
  obtain nm where nm: "py_get item ''name'' (JStr []) = Inr nm"
    using JObj by simp
  with assms obtain s where s: "py_strip nm = Inr s"
    by (cases "py_strip nm") (simp_all add: item_matches_def)
  then obtain n where n: "nm = JStr n" "s = strip n"
    by (cases nm) simp_all
  from assms nm s n JObj show ?thesis
    by (simp add: item_matches_def split: if_splits)
qed (use assms in \<open>simp_all add: item_matches_def\<close>)

lemma item_matches_name:
  assumes "item_matches species item = Inr True" and "strip species \<noteq> []"
  shows "\<exists>n. py_getitem item ''name'' = Inr (JStr n) \<and> lower (strip n) = lower (strip species)"
proof -
  from item_matches_TrueD [OF assms(1)] obtain kvs n where item: "item = JObj kvs"
    and nm: "py_get item ''name'' (JStr []) = Inr (JStr n)"
    and eq: "lower (strip n) = lower (strip species)"
    by blast
  have "map_of kvs ''name'' \<noteq> None"
  proof
    assume "map_of kvs ''name'' = None"
    with item nm have "n = []" by simp
    with eq have "lower (strip species) = []" by (simp add: strip_def lower_def)
    with assms(2) show False by (simp add: lower_def)
  qed
  with item nm eq show ?thesis by auto
qed

lemma filter_items_member:
  "filter_items species items = Inr ys \<Longrightarrow> y \<in> set ys \<Longrightarrow> item_matches species y = Inr True"
proof (induction items arbitrary: ys)
  case Nil
  then show ?case by simp
next
  case (Cons item items)
  from Cons.prems(1) obtain m rest where m: "item_matches species item = Inr m"
    and rest: "filter_items species items = Inr rest"
    and ys: "ys = (if m then item # rest else rest)"
    by (auto simp: ebind_eq_Inr)
  show ?case
  proof (cases "y \<in> set rest")
    case True
    with Cons.IH rest show ?thesis by blast
  next
    case False
    with Cons.prems(2) ys have "m" "y = item" by (auto split: if_splits)
    with m show ?thesis by simp
  qed
qed

lemma classify_item_status:
  "classify_item auth item = Inr (st, nm, rs) \<Longrightarrow> st \<in> {no_current, current, not_current}"
  by (auto simp: classify_item_def ebind_eq_Inr split: if_splits)

lemma classify_single:
  "item_matches species item = Inr True \<Longrightarrow> classify auth (JArr [item]) species = classify_item auth item"
  by (simp add: classify_def)

text \<open>
  The canonical record: the only match, or the first of several matches whose
  current-name identifiers agree.
\<close>

lemma classify_canonical:
  assumes "py_iter items_json = Inr items"
    and "filter_items species items = Inr (item # others)"
    and "others \<noteq> [] \<longrightarrow> (\<exists>ids. collect_ids (item # others) = Inr ids \<and> ids_agree ids)"
  shows "classify auth items_json species = classify_item auth item"
proof (cases others)
  case Nil
  with assms show ?thesis by (simp add: classify_def)
next
  case (Cons item' rest)
  with assms(3) obtain ids where "collect_ids (item # item' # rest) = Inr ids" "ids_agree ids"
    by auto
  with assms(1,2) Cons show ?thesis by (simp add: classify_def)
qed

subsection \<open>Several matches\<close>

text \<open>
  C8. When more than one record matches the name, \<open>ids\<close> being the current-name
  identifiers of the matches in order: if every identifier equals the first one, the
  outcome is the outcome for the first match alone, which is what possibilities 4 to 6
  give for that record; otherwise the outcome is \<open>multiple_records\<close> with \<open>NA\<close> and no
  lookup. The first match alone is never classified \<open>multiple_records\<close>, so that status
  arises only from disagreeing identifiers.
\<close>

theorem several_matches:
  assumes "py_iter items_json = Inr items"
    and "filter_items species items = Inr (item # item' # others)"
    and "collect_ids (item # item' # others) = Inr ids"
  shows "classify auth items_json species =
           (if ids_agree ids then classify auth (JArr [item]) species
            else Inr (multiple_records, NA, []))
       \<and> classify auth (JArr [item]) species = classify_item auth item
       \<and> (\<forall>nm rs. classify_item auth item \<noteq> Inr (multiple_records, nm, rs))"
proof -
  have "item_matches species item = Inr True"
    using filter_items_member [OF assms(2)] by simp
  then have single: "classify auth (JArr [item]) species = classify_item auth item"
    by (rule classify_single)
  have c: "classify auth items_json species =
             (if ids_agree ids then classify_item auth item else Inr (multiple_records, NA, []))"
    using assms by (simp add: classify_def)
  have "\<forall>nm rs. classify_item auth item \<noteq> Inr (multiple_records, nm, rs)"
    using classify_item_status [of auth item multiple_records] by auto
  with c single show ?thesis by simp
qed


theorem several_matches_witness:
  "classify unreachable
     (JArr [name_record 1 ''Boletus edulis'' ''Legitimate'' (JInt 1),
            name_record 2 ''Boletus edulis'' ''Legitimate'' (JInt 1)])
     ''Boletus edulis''
   = Inr (current, JStr ''Boletus edulis'', [])
   \<and> classify unreachable
     (JArr [name_record 1 ''Boletus edulis'' ''Legitimate'' (JInt 200),
            name_record 2 ''Boletus edulis'' ''Legitimate'' (JInt 300)])
     ''Boletus edulis''
   = Inr (multiple_records, NA, [])"
proof -
  let ?a = "name_record 1 ''Boletus edulis'' ''Legitimate'' (JInt 1)"
  let ?b = "name_record 2 ''Boletus edulis'' ''Legitimate'' (JInt 1)"
  let ?c = "name_record 1 ''Boletus edulis'' ''Legitimate'' (JInt 200)"
  let ?d = "name_record 2 ''Boletus edulis'' ''Legitimate'' (JInt 300)"
  have 1: "py_iter (JArr [?a, ?b]) = Inr [?a, ?b]" by simp
  have 2: "filter_items ''Boletus edulis'' [?a, ?b] = Inr (?a # ?b # [])"
    by (simp add: eval_defs)
  have 3: "collect_ids (?a # ?b # []) = Inr [JInt 1, JInt 1]"
    by (simp add: current_name_id_def name_record_def)
  have 4: "py_iter (JArr [?c, ?d]) = Inr [?c, ?d]" by simp
  have 5: "filter_items ''Boletus edulis'' [?c, ?d] = Inr (?c # ?d # [])"
    by (simp add: eval_defs)
  have 6: "collect_ids (?c # ?d # []) = Inr [JInt 200, JInt 300]"
    by (simp add: current_name_id_def name_record_def)
  have agree: "ids_agree [JInt 1, JInt 1]" and disagree: "\<not> ids_agree [JInt 200, JInt 300]"
    by (simp_all add: ids_agree_def)
  have first: "classify_item unreachable ?a = Inr (current, JStr ''Boletus edulis'', [])"
    by (simp add: classify_item_def current_name_id_def name_record_def)
  from several_matches [OF 1 2 3, where auth = unreachable] agree first
  have "classify unreachable (JArr [?a, ?b]) ''Boletus edulis'' = Inr (current, JStr ''Boletus edulis'', [])"
    by simp
  moreover from several_matches [OF 4 5 6, where auth = unreachable] disagree
  have "classify unreachable (JArr [?c, ?d]) ''Boletus edulis'' = Inr (multiple_records, NA, [])"
    by simp
  ultimately show ?thesis by simp
qed

subsection \<open>The canonical record\<close>

text \<open>
  C10. For the canonical record of a name, when the record has an \<open>id\<close> and its
  current-name identifier can be read: a falsy identifier (\<^verbatim>\<open>None\<close> as for an absent
  one, \<^verbatim>\<open>False\<close>, \<open>0\<close>, the empty string, list or dict) gives \<open>no_current\<close> with
  \<open>NA\<close> and no lookup, whatever the record's own \<open>id\<close> is, also when that is 0 too.
\<close>

theorem falsy_current_id_is_no_current:
  assumes "py_iter items_json = Inr items"
    and "filter_items species items = Inr (item # others)"
    and "others \<noteq> [] \<longrightarrow> (\<exists>ids. collect_ids (item # others) = Inr ids \<and> ids_agree ids)"
    and "py_getitem item ''id'' = Inr item_id"
    and "current_name_id item = Inr current_id"
    and "current_id \<in> {JNull, JBool False, JInt 0, JStr [], JArr [], JObj []}"
  shows "classify auth items_json species = Inr (no_current, NA, [])
       \<and> process_species auth items_json s species = Inr (record_result species no_current NA s)"
proof -
  from assms(6) have "\<not> py_truthy current_id" by (simp only: py_falsy_iff)
  with assms(4,5) have "classify_item auth item = Inr (no_current, NA, [])"
    by (simp add: classify_item_def)
  with classify_canonical [OF assms(1-3)] have c: "classify auth items_json species = Inr (no_current, NA, [])"
    by simp
  then show ?thesis by (simp add: process_species_def)
qed


theorem falsy_current_id_is_no_current_witness:
  "JInt 0 \<in> {JNull, JBool False, JInt 0, JStr [], JArr [], JObj []}
   \<and> classify unreachable
         (JArr [name_record 0 ''Amanita muscaria'' ''Legitimate'' (JInt 0)]) ''Amanita muscaria''
       = Inr (no_current, NA, [])
   \<and> JStr [] \<in> {JNull, JBool False, JInt 0, JStr [], JArr [], JObj []}
   \<and> classify unreachable
         (JArr [name_record 100 ''Amanita muscaria'' ''Legitimate'' (JStr [])]) ''Amanita muscaria''
       = Inr (no_current, NA, [])"
proof -
  let ?a = "name_record 0 ''Amanita muscaria'' ''Legitimate'' (JInt 0)"
  let ?b = "name_record 100 ''Amanita muscaria'' ''Legitimate'' (JStr [])"
  have a1: "py_iter (JArr [?a]) = Inr [?a]" by simp
  have a2: "filter_items ''Amanita muscaria'' [?a] = Inr (?a # [])"
    by (simp add: eval_defs)
  have a3: "[] \<noteq> [] \<longrightarrow> (\<exists>ids. collect_ids (?a # []) = Inr ids \<and> ids_agree ids)" by simp
  have a4: "py_getitem ?a ''id'' = Inr (JInt 0)" by (simp add: name_record_def)
  have a5: "current_name_id ?a = Inr (JInt 0)" by (simp add: current_name_id_def name_record_def)
  have a6: "JInt 0 \<in> {JNull, JBool False, JInt 0, JStr [], JArr [], JObj []}" by simp
  have b1: "py_iter (JArr [?b]) = Inr [?b]" by simp
  have b2: "filter_items ''Amanita muscaria'' [?b] = Inr (?b # [])"
    by (simp add: eval_defs)
  have b3: "[] \<noteq> [] \<longrightarrow> (\<exists>ids. collect_ids (?b # []) = Inr ids \<and> ids_agree ids)" by simp
  have b4: "py_getitem ?b ''id'' = Inr (JInt 100)" by (simp add: name_record_def)
  have b5: "current_name_id ?b = Inr (JStr [])" by (simp add: current_name_id_def name_record_def)
  have b6: "JStr [] \<in> {JNull, JBool False, JInt 0, JStr [], JArr [], JObj []}" by simp
  from falsy_current_id_is_no_current [OF a1 a2 a3 a4 a5 a6, where auth = unreachable and s = init_state]
    falsy_current_id_is_no_current [OF b1 b2 b3 b4 b5 b6, where auth = unreachable and s = init_state]
    a6 b6
  show ?thesis by blast
qed

text \<open>
  C2, as the code has it. For a non-blank name whose canonical record has a truthy
  current-name identifier equal (Python's \<^verbatim>\<open>==\<close>) to the record's own \<open>id\<close>: the
  status is \<open>current\<close>, no lookup is made, and the name written is the record's
  \<open>name\<close> as the authority spells it, which agrees with the queried name after
  stripping and lower-casing.
\<close>

theorem current_when_ids_equal:
  assumes "py_iter items_json = Inr items"
    and "filter_items species items = Inr (item # others)"
    and "others \<noteq> [] \<longrightarrow> (\<exists>ids. collect_ids (item # others) = Inr ids \<and> ids_agree ids)"
    and "py_getitem item ''id'' = Inr item_id"
    and "current_name_id item = Inr current_id"
    and "py_eq item_id current_id"
    and "py_truthy current_id"
    and "strip species \<noteq> []"
  shows "\<exists>n. py_getitem item ''name'' = Inr (JStr n)
           \<and> lower (strip n) = lower (strip species)
           \<and> classify auth items_json species = Inr (current, JStr n, [])
           \<and> process_species auth items_json s species = Inr (record_result species current (JStr n) s)"
proof -
  have "item_matches species item = Inr True"
    using filter_items_member [OF assms(2)] by simp
  from item_matches_name [OF this assms(8)] obtain n
    where n: "py_getitem item ''name'' = Inr (JStr n)" "lower (strip n) = lower (strip species)"
    by blast
  from assms(4-7) n have "classify_item auth item = Inr (current, JStr n, [])"
    by (simp add: classify_item_def)
  with classify_canonical [OF assms(1-3)]
  have c: "classify auth items_json species = Inr (current, JStr n, [])" by simp
  then have "process_species auth items_json s species = Inr (record_result species current (JStr n) s)"
    by (simp add: process_species_def)
  with n c show ?thesis by blast
qed


theorem current_when_ids_equal_witness:
  "strip ''amanita muscaria'' \<noteq> []
   \<and> py_eq (JInt 100) (JInt 100) \<and> py_truthy (JInt 100)
   \<and> (\<exists>n. lower (strip n) = lower (strip ''amanita muscaria'')
          \<and> classify unreachable
               (JArr [name_record 100 ''Amanita muscaria'' ''Legitimate'' (JInt 100)])
               ''amanita muscaria''
             = Inr (current, JStr n, []))"
proof -
  let ?a = "name_record 100 ''Amanita muscaria'' ''Legitimate'' (JInt 100)"
  have 1: "py_iter (JArr [?a]) = Inr [?a]" by simp
  have 2: "filter_items ''amanita muscaria'' [?a] = Inr (?a # [])"
    by (simp add: eval_defs)
  have 3: "[] \<noteq> [] \<longrightarrow> (\<exists>ids. collect_ids (?a # []) = Inr ids \<and> ids_agree ids)" by simp
  have 4: "py_getitem ?a ''id'' = Inr (JInt 100)" by (simp add: name_record_def)
  have 5: "current_name_id ?a = Inr (JInt 100)" by (simp add: current_name_id_def name_record_def)
  have 6: "py_eq (JInt 100) (JInt 100)" by simp
  have 7: "py_truthy (JInt 100)" by simp
  have 8: "strip ''amanita muscaria'' \<noteq> []" by (simp add: strip_def is_space_def)
  from current_when_ids_equal [OF 1 2 3 4 5 6 7 8, where auth = unreachable and s = init_state] 6 7 8
  show ?thesis by blast
qed

text \<open>
  C2, as the specification states it, fails twice. The name written is the authority's
  spelling, not the queried string: a name queried in lower case comes back
  capitalised. And equal identifiers do not give \<open>current\<close> when they are falsy: \<open>id\<close>
  and current-name identifier both 0 give \<open>no_current\<close>.
\<close>


theorem current_name_is_not_the_query_string:
  "classify unreachable
     (JArr [name_record 100 ''Amanita muscaria'' ''Legitimate'' (JInt 100)]) ''amanita muscaria''
   = Inr (current, JStr ''Amanita muscaria'', [])
   \<and> JStr ''Amanita muscaria'' \<noteq> JStr ''amanita muscaria''
   \<and> py_eq (JInt 0) (JInt 0)
   \<and> classify unreachable
     (JArr [name_record 0 ''Amanita muscaria'' ''Legitimate'' (JInt 0)]) ''Amanita muscaria''
   = Inr (no_current, NA, [])"
  by (simp add: eval_defs)

subsection \<open>No match\<close>

lemma is_space_lower_char: "is_space (lower_char c) = is_space c"
  by (auto simp: is_space_def lower_char_def Let_def)

lemma dropWhile_lower: "dropWhile is_space (lower s) = lower (dropWhile is_space s)"
  by (induction s) (simp_all add: lower_def is_space_lower_char)

lemma strip_lower: "strip (lower s) = lower (strip s)"
proof -
  have r: "rev (lower s) = lower (rev s)" for s by (simp add: lower_def rev_map)
  show ?thesis by (simp add: strip_def dropWhile_lower r)
qed

lemma item_matches_wf:
  assumes "item_name item = Some n"
  shows "item_matches species item =
           Inr (lower (strip n) = lower (strip species)
                \<and> \<not> excluded_status (item_status item))"
proof (cases item)
  case (JObj kvs)
  with assms have "py_get item ''name'' (JStr []) = Inr (JStr n)"
    by (auto split: option.splits json.splits)
  with JObj show ?thesis by (simp add: item_matches_def)
qed (use assms in simp_all)


lemma item_matches_readable:
  assumes "item_matches species item = Inr m"
  shows "item_name item \<noteq> None"
proof (cases item)
  case (JObj kvs)
  show ?thesis
  proof (cases "map_of kvs ''name''")
    case None
    with JObj show ?thesis by simp
  next
    case (Some v)
    with assms JObj show ?thesis by (cases v) (simp_all add: item_matches_def)
  qed
qed (use assms in \<open>simp_all add: item_matches_def\<close>)

lemma filter_items_readable:
  "filter_items species items = Inr ys \<Longrightarrow> list_all (\<lambda>item. item_name item \<noteq> None) items"
proof (induction items arbitrary: ys)
  case Nil
  show ?case by simp
next
  case (Cons item items)
  from Cons.prems obtain m rest where "item_matches species item = Inr m"
    and "filter_items species items = Inr rest"
    by (auto simp: ebind_eq_Inr)
  with Cons.IH item_matches_readable show ?case by auto
qed

lemma name_in_items_readable:
  "list_all (\<lambda>item. item_name item \<noteq> None) items \<Longrightarrow>
   name_in_items species items =
     Inr (\<exists>item \<in> set items. \<exists>n. item_name item = Some n \<and> lower n = lower species)"
proof (induction items)
  case Nil
  show ?case by simp
next
  case (Cons item items)
  then have IH: "name_in_items species items =
     Inr (\<exists>item \<in> set items. \<exists>n. item_name item = Some n \<and> lower n = lower species)"
    by simp
  from Cons.prems obtain n where n: "item_name item = Some n" by auto
  then obtain kvs where item: "item = JObj kvs" by (cases item) simp_all
  with n have g: "py_get item ''name'' (JStr []) = Inr (JStr n)"
    by (auto split: option.splits json.splits)
  show ?case
  proof (cases "lower species = lower n")
    case True
    with g n show ?thesis by auto
  next
    case False
    with g n IH show ?thesis by auto
  qed
qed

lemma filter_items_none:
  "filter_items species items = Inr [] \<Longrightarrow> item \<in> set items \<Longrightarrow> item_matches species item = Inr False"
proof (induction items)
  case Nil
  then show ?case by simp
next
  case (Cons x items)
  from Cons.prems(1) obtain m rest where m: "item_matches species x = Inr m"
    and rest: "filter_items species items = Inr rest"
    and e: "(if m then x # rest else rest) = []"
    by (auto simp: ebind_eq_Inr)
  from e have "\<not> m" "rest = []" by (auto split: if_splits)
  with Cons.IH Cons.prems(2) m rest show ?case by auto
qed

text \<open>
  What the code does when no record passes the filter that builds
  \<^verbatim>\<open>species_items\<close>: the outcome is \<open>no_valid\<close> when some record of the batch
  response has the queried name up to letter case, without stripping, and
  \<open>no_records\<close> when none has; every record that has it carries the status
  \<open>Illegitimate\<close> or \<open>Invalid\<close>.
\<close>

lemma no_match_status:
  assumes "py_iter items_json = Inr items" and "filter_items species items = Inr []"
  shows "classify auth items_json species =
           Inr (if (\<exists>item \<in> set items. \<exists>n. item_name item = Some n \<and> lower n = lower species)
                then no_valid else no_records, NA, [])
       \<and> (\<forall>item \<in> set items. \<forall>n. item_name item = Some n \<and> lower n = lower species
                                   \<longrightarrow> excluded_status (item_status item))"
proof -
  have c: "classify auth items_json species =
           Inr (if (\<exists>item \<in> set items. \<exists>n. item_name item = Some n \<and> lower n = lower species)
                then no_valid else no_records, NA, [])"
    using assms name_in_items_readable [OF filter_items_readable [OF assms(2)], of species]
    by (simp add: classify_def)
  have "excluded_status (item_status item)"
    if "item \<in> set items" and n: "item_name item = Some n" and eq: "lower n = lower species"
    for item n
  proof -
    from eq have "strip (lower n) = strip (lower species)" by simp
    then have "lower (strip n) = lower (strip species)" by (simp add: strip_lower)
    with item_matches_wf [OF n, of species]
    have "item_matches species item = Inr (\<not> excluded_status (item_status item))" by simp
    with filter_items_none [OF assms(2) that(1)] show ?thesis by simp
  qed
  with c show ?thesis by blast
qed

lemma no_match_status_example:
  "classify unreachable
     (JArr [name_record 5 ''Cortinarius Violaceus'' ''Invalid'' (JInt 5)]) ''Cortinarius violaceus''
   = Inr (no_valid, NA, [])
   \<and> classify unreachable
     (JArr [name_record 5 ''Cortinarius violaceus var. albus'' ''Legitimate'' (JInt 5)])
     ''Cortinarius violaceus''
   = Inr (no_records, NA, [])"
proof -
  let ?a = "name_record 5 ''Cortinarius Violaceus'' ''Invalid'' (JInt 5)"
  let ?b = "name_record 5 ''Cortinarius violaceus var. albus'' ''Legitimate'' (JInt 5)"
  have 1: "py_iter (JArr [?a]) = Inr [?a]" by simp
  have 2: "filter_items ''Cortinarius violaceus'' [?a] = Inr []"
    by (simp add: eval_defs)
  have 3: "py_iter (JArr [?b]) = Inr [?b]" by simp
  have 4: "filter_items ''Cortinarius violaceus'' [?b] = Inr []"
    by (simp add: eval_defs)
  from no_match_status [OF 1 2, where auth = unreachable, THEN conjunct1]
  have "classify unreachable (JArr [?a]) ''Cortinarius violaceus'' = Inr (no_valid, NA, [])"
    by (simp add: name_record_def lower_def lower_char_def char_of_def bit_Suc_0_iff)
  moreover from no_match_status [OF 3 4, where auth = unreachable, THEN conjunct1]
  have "classify unreachable (JArr [?b]) ''Cortinarius violaceus'' = Inr (no_records, NA, [])"
    by (simp add: name_record_def lower_def lower_char_def char_of_def bit_Suc_0_iff)
  ultimately show ?thesis by simp
qed

text \<open>
  C7 fails on the code at a record whose name carries a trailing blank and whose status
  is \<open>Invalid\<close>. The filter strips the record's name before comparing, so the record
  bears the queried name (with status \<open>Legitimate\<close> it is the match) and is excluded
  by its status alone; the test that tells \<open>no_valid\<close> from \<open>no_records\<close> compares
  without stripping, so the name is reported as \<open>no_records\<close>, where a record with
  this name exists among the invalid ones. Without the blank the same record gives
  \<open>no_valid\<close>.
\<close>

theorem padded_invalid_name_is_no_records:
  "bears_name ''Cortinarius violaceus'' (name_record 5 ''Cortinarius violaceus '' ''Invalid'' (JInt 5))
   \<and> excluded_status (item_status (name_record 5 ''Cortinarius violaceus '' ''Invalid'' (JInt 5)))
   \<and> filter_items ''Cortinarius violaceus''
       [name_record 5 ''Cortinarius violaceus '' ''Invalid'' (JInt 5)]
     = Inr []
   \<and> classify unreachable
     (JArr [name_record 5 ''Cortinarius violaceus '' ''Invalid'' (JInt 5)]) ''Cortinarius violaceus''
   = Inr (no_records, NA, [])
   \<and> map_sum id results (get_current_names_batch
        (serving [name_record 5 ''Cortinarius violaceus '' ''Invalid'' (JInt 5)])
        [''Cortinarius violaceus''] 20)
   = Inr [(''Cortinarius violaceus'', no_records, NA)]
   \<and> filter_items ''Cortinarius violaceus''
       [name_record 5 ''Cortinarius violaceus '' ''Legitimate'' (JInt 5)]
     = Inr [name_record 5 ''Cortinarius violaceus '' ''Legitimate'' (JInt 5)]
   \<and> classify unreachable
     (JArr [name_record 5 ''Cortinarius violaceus'' ''Invalid'' (JInt 5)]) ''Cortinarius violaceus''
   = Inr (no_valid, NA, [])"
  by (simp add: eval_defs bears_name_def get_current_names_batch_def batch_def sys_maxsize_def
      chunks.simps process_batch_def Let_def process_species_def filter_str_def
      record_result_def sent_def init_state_def)

subsection \<open>The point lookup\<close>

text \<open>
  C1 at a lookup that answers 404 with a body that is not JSON. The status code of the
  lookup is never read, \<^verbatim>\<open>.json()\<close> raises, and the exception ends the run: no
  report is written, not even the row of the name classified before.
\<close>


theorem lookup_failure_aborts_run:
  "get_current_names_batch
     (serving [name_record 100 ''Amanita muscaria'' ''Legitimate'' (JInt 100),
               name_record 101 ''Agaricus muscarius'' ''Legitimate'' (JInt 100)])
     [''Amanita muscaria'', ''Agaricus muscarius''] 20
   = Inl JSONDecodeError"
  by (simp add: get_current_names_batch_def batch_def sys_maxsize_def chunks.simps
      process_batch_def Let_def process_species_def eval_defs)

text \<open>
  What the lookup does degrade: a body that is a JSON object without a \<open>name\<close> key,
  under any status code, gives \<open>not_current\<close> with the placeholder.
\<close>

lemma lookup_without_name_is_unknown:
  assumes "py_iter items_json = Inr items"
    and "filter_items species items = Inr (item # others)"
    and "others \<noteq> [] \<longrightarrow> (\<exists>ids. collect_ids (item # others) = Inr ids \<and> ids_agree ids)"
    and "py_getitem item ''id'' = Inr item_id"
    and "current_name_id item = Inr current_id"
    and "py_truthy current_id"
    and "\<not> py_eq item_id current_id"
    and "auth (PointLookup current_id) = Inr resp"
    and "body resp = Some (JObj kvs)"
    and "map_of kvs ''name'' = None"
  shows "classify auth items_json species = Inr (not_current, unknown, [PointLookup current_id])"
proof -
  from assms(4-10) have "classify_item auth item = Inr (not_current, unknown, [PointLookup current_id])"
    by (simp add: classify_item_def response_json_def)
  with classify_canonical [OF assms(1-3)] show ?thesis by simp
qed

section \<open>Properties of the run\<close>

lemma mark_errors_results:
  "results (mark_errors s b) = results s @ map (\<lambda>sp. (sp, error, NA)) b"
  by (induction b arbitrary: s) (simp_all add: record_result_def)

lemma mark_errors_count:
  "processed_count (mark_errors s b) = processed_count s + length b"
  by (induction b arbitrary: s) (simp_all add: record_result_def)

lemma mark_errors_calls:
  "calls (mark_errors s b) = calls s"
  by (induction b arbitrary: s) (simp_all add: record_result_def)

lemma mark_errors_summary:
  "summary (mark_errors s b) = (summary s)(error := summary s error + length b)"
  by (induction b arbitrary: s) (simp_all add: record_result_def)

lemma process_species_grows:
  "process_species auth ij s sp = Inr s' \<Longrightarrow> \<exists>rows. results s' = results s @ rows"
  by (auto simp: process_species_def ebind_eq_Inr record_result_def sent_def)

lemma process_names_grows:
  "process_names auth ij s b = Inr s' \<Longrightarrow> \<exists>rows. results s' = results s @ rows"
proof (induction b arbitrary: s)
  case Nil
  then show ?case by simp
next
  case (Cons sp b)
  from Cons.prems obtain s1 where 1: "process_species auth ij s sp = Inr s1"
    and 2: "process_names auth ij s1 b = Inr s'"
    by (auto simp: ebind_eq_Inr)
  from process_species_grows [OF 1] Cons.IH [OF 2] show ?case by auto
qed

lemma process_batch_grows:
  assumes "process_batch auth s b = Inr s'"
  shows "\<exists>rows. results s' = results s @ rows"
proof -
  from assms obtain resp where r: "auth (BatchQuery (filter_str b)) = Inr resp"
    by (auto simp: process_batch_def Let_def ebind_eq_Inr)
  show ?thesis
  proof (cases "status_code resp = 200")
    case False
    with assms r have "s' = mark_errors (sent [BatchQuery (filter_str b)] s) b"
      by (simp add: process_batch_def Let_def)
    then show ?thesis by (simp add: mark_errors_results sent_def)
  next
    case True
    with assms r obtain ij where "process_names auth ij (sent [BatchQuery (filter_str b)] s) b = Inr s'"
      by (auto simp: process_batch_def Let_def ebind_eq_Inr)
    from process_names_grows [OF this] show ?thesis by (simp add: sent_def)
  qed
qed

lemma run_batches_grows:
  "run_batches auth s bs = Inr t \<Longrightarrow> \<exists>rows. results t = results s @ rows"
proof (induction bs arbitrary: s)
  case Nil
  then show ?case by simp
next
  case (Cons b bs)
  from Cons.prems obtain s1 where 1: "process_batch auth s b = Inr s1"
    and 2: "run_batches auth s1 bs = Inr t"
    by (auto simp: ebind_eq_Inr)
  from process_batch_grows [OF 1] Cons.IH [OF 2] show ?case by auto
qed

text \<open>
  C6. When the batch query returns a response whose status code is not 200, the batch
  is processed without an exception: one row \<open>(name, error, NA)\<close> per name of the batch
  is appended in order, the \<open>error\<close> counter and the progress counter grow by the size
  of the batch, and the batch query is the only request sent for the batch (no lookup,
  no second attempt). The run goes on from that state: if the batch is the last one the
  run ends with it, otherwise the next batch is processed from it and then the
  remaining ones, and whenever the run returns, its rows go on from the rows before the
  batch with the batch's error rows.
\<close>

theorem batch_failure_marks_error:
  assumes "auth (BatchQuery (filter_str species_batch)) = Inr resp"
    and "status_code resp \<noteq> 200"
  shows "\<exists>s'. process_batch auth s species_batch = Inr s'
           \<and> results s' = results s @ map (\<lambda>sp. (sp, error, NA)) species_batch
           \<and> summary s' = (summary s)(error := summary s error + length species_batch)
           \<and> processed_count s' = processed_count s + length species_batch
           \<and> calls s' = calls s @ [BatchQuery (filter_str species_batch)]
           \<and> run_batches auth s (species_batch # rest) = run_batches auth s' rest
           \<and> run_batches auth s [species_batch] = Inr s'
           \<and> (\<forall>next_batch rest'. rest = next_batch # rest' \<longrightarrow>
                 run_batches auth s (species_batch # rest)
                 = ebind (process_batch auth s' next_batch) (\<lambda>s''. run_batches auth s'' rest'))
           \<and> (\<forall>t. run_batches auth s (species_batch # rest) = Inr t \<longrightarrow>
                 (\<exists>rows. results t = results s @ map (\<lambda>sp. (sp, error, NA)) species_batch @ rows))"
proof -
  let ?s' = "mark_errors (sent [BatchQuery (filter_str species_batch)] s) species_batch"
  from assms have p: "process_batch auth s species_batch = Inr ?s'"
    by (simp add: process_batch_def Let_def)
  then have run: "run_batches auth s (species_batch # rest) = run_batches auth ?s' rest"
    by simp
  from p have one: "run_batches auth s [species_batch] = Inr ?s'"
    by simp
  have res: "results ?s' = results s @ map (\<lambda>sp. (sp, error, NA)) species_batch"
    by (simp add: mark_errors_results sent_def)
  have sum: "summary ?s' = (summary s)(error := summary s error + length species_batch)"
    by (simp add: mark_errors_summary sent_def)
  have cnt: "processed_count ?s' = processed_count s + length species_batch"
    by (simp add: mark_errors_count sent_def)
  have cls: "calls ?s' = calls s @ [BatchQuery (filter_str species_batch)]"
    by (simp add: mark_errors_calls sent_def)
  have nxt: "\<forall>next_batch rest'. rest = next_batch # rest' \<longrightarrow>
                 run_batches auth s (species_batch # rest)
                 = ebind (process_batch auth ?s' next_batch) (\<lambda>s''. run_batches auth s'' rest')"
    using p by simp
  have fin: "\<forall>t. run_batches auth s (species_batch # rest) = Inr t \<longrightarrow>
                 (\<exists>rows. results t = results s @ map (\<lambda>sp. (sp, error, NA)) species_batch @ rows)"
  proof (intro allI impI)
    fix t assume "run_batches auth s (species_batch # rest) = Inr t"
    with run have "run_batches auth ?s' rest = Inr t" by simp
    from run_batches_grows [OF this] res
    show "\<exists>rows. results t = results s @ map (\<lambda>sp. (sp, error, NA)) species_batch @ rows"
      by auto
  qed
  from p run one res sum cnt cls nxt fin show ?thesis by blast
qed

text \<open>
  Four names in batches of three: the authority refuses the filter expression of the
  first batch and answers the one of the second, whose name is then classified.
\<close>

theorem batch_failure_marks_error_witness:
  "length_limited [name_record 9 ''Russula emetica'' ''Legitimate'' (JInt 9)]
     (BatchQuery (filter_str [''Amanita muscaria'', ''Boletus edulis'', ''Cortinarius violaceus'']))
     = Inr \<lparr>status_code = 414, body = None\<rparr>
   \<and> status_code \<lparr>status_code = 414, body = None\<rparr> \<noteq> 200
   \<and> batch [''Amanita muscaria'', ''Boletus edulis'', ''Cortinarius violaceus'', ''Russula emetica''] 3
     = Inr [[''Amanita muscaria'', ''Boletus edulis'', ''Cortinarius violaceus''], [''Russula emetica'']]
   \<and> map_sum id results
        (get_current_names_batch
           (length_limited [name_record 9 ''Russula emetica'' ''Legitimate'' (JInt 9)])
           [''Amanita muscaria'', ''Boletus edulis'', ''Cortinarius violaceus'', ''Russula emetica''] 3)
     = Inr [(''Amanita muscaria'', error, NA), (''Boletus edulis'', error, NA),
            (''Cortinarius violaceus'', error, NA),
            (''Russula emetica'', current, JStr ''Russula emetica'')]"
proof -
  let ?auth = "length_limited [name_record 9 ''Russula emetica'' ''Legitimate'' (JInt 9)]"
  let ?b = "[''Amanita muscaria'', ''Boletus edulis'', ''Cortinarius violaceus'']"
  let ?xs = "[''Amanita muscaria'', ''Boletus edulis'', ''Cortinarius violaceus'', ''Russula emetica'']"
  have 1: "?auth (BatchQuery (filter_str ?b)) = Inr \<lparr>status_code = 414, body = None\<rparr>"
    by (simp add: length_limited_def filter_str_def)
  have 2: "status_code \<lparr>status_code = 414, body = None\<rparr> \<noteq> 200" by simp
  have 3: "batch ?xs 3 = Inr [?b, [''Russula emetica'']]"
    by (simp add: batch_def sys_maxsize_def chunks.simps)
  from batch_failure_marks_error [where auth = ?auth and species_batch = ?b and s = init_state
      and rest = "[[''Russula emetica'']]", OF 1 2]
  obtain s' where res: "results s' = results init_state @ map (\<lambda>sp. (sp, error, NA)) ?b"
    and run: "run_batches ?auth init_state (?b # [[''Russula emetica'']])
              = ebind (process_batch ?auth s' [''Russula emetica'']) (\<lambda>s''. run_batches ?auth s'' [])"
    by blast
  have "map_sum id results (process_batch ?auth s' [''Russula emetica''])
        = Inr (results s' @ [(''Russula emetica'', current, JStr ''Russula emetica'')])"
    by (simp add: process_batch_def Let_def process_species_def eval_defs filter_str_def
        record_result_def sent_def)
  with res run have "map_sum id results (run_batches ?auth init_state [?b, [''Russula emetica'']])
        = Inr [(''Amanita muscaria'', error, NA), (''Boletus edulis'', error, NA),
            (''Cortinarius violaceus'', error, NA),
            (''Russula emetica'', current, JStr ''Russula emetica'')]"
    by (cases "process_batch ?auth s' [''Russula emetica'']") (simp_all add: init_state_def)
  with 1 2 3 show ?thesis by (simp add: get_current_names_batch_def)
qed

subsection \<open>Batch size\<close>





lemma same_report_refl [simp]: "same_report s s"
  by (simp add: same_report_def)

lemma same_report_sent [simp]: "same_report (sent rs s) t = same_report s t"
  by (simp add: same_report_def sent_def)












end
